theory Spec2Isabelle
  imports Complex_Main "HOL-Library.AList" "HOL-Library.Sublist" "HOL-Library.Multiset"
    "HOL-Library.List_Lexorder"
begin

section \<open>The JavaScript values the data pipeline of Dataviz.ts works on\<close>

text \<open>
  The pipeline functions of \<^verbatim>\<open>src/Dataviz.ts\<close> (\<^verbatim>\<open>identifyNumericColumns\<close>,
  \<^verbatim>\<open>sortData\<close>, \<^verbatim>\<open>applyNormalization\<close>, \<^verbatim>\<open>removeOutliers\<close>,
  \<^verbatim>\<open>buildHeatmapData\<close>, \<^verbatim>\<open>aggregateData\<close>, \<^verbatim>\<open>applyFiltering\<close> and the
  projections of \<^verbatim>\<open>_Linechart\<close> and \<^verbatim>\<open>_Scatterplot\<close>) are typed \<^verbatim>\<open>any\<close>: what they
  compute is fixed by the coercions of the language. This section models those.

  A number is an exact real or one of the three special values of IEEE arithmetic.
  Rounding, overflow of finite operations and the sign of zero are not modelled.
\<close>

datatype jsnum = Fin real | PInf | NInf | NaN

fun num_neg :: "jsnum \<Rightarrow> jsnum" where
  "num_neg (Fin r) = Fin (- r)"
| "num_neg PInf = NInf"
| "num_neg NInf = PInf"
| "num_neg NaN = NaN"

fun num_add :: "jsnum \<Rightarrow> jsnum \<Rightarrow> jsnum" where
  "num_add NaN _ = NaN"
| "num_add _ NaN = NaN"
| "num_add (Fin a) (Fin b) = Fin (a + b)"
| "num_add PInf NInf = NaN"
| "num_add NInf PInf = NaN"
| "num_add PInf _ = PInf"
| "num_add _ PInf = PInf"
| "num_add NInf _ = NInf"
| "num_add _ NInf = NInf"

definition num_sub :: "jsnum \<Rightarrow> jsnum \<Rightarrow> jsnum" where
  "num_sub a b = num_add a (num_neg b)"

fun num_mul :: "jsnum \<Rightarrow> jsnum \<Rightarrow> jsnum" where
  "num_mul NaN _ = NaN"
| "num_mul _ NaN = NaN"
| "num_mul (Fin a) (Fin b) = Fin (a * b)"
| "num_mul (Fin a) PInf = (if a = 0 then NaN else if 0 < a then PInf else NInf)"
| "num_mul (Fin a) NInf = (if a = 0 then NaN else if 0 < a then NInf else PInf)"
| "num_mul PInf (Fin b) = (if b = 0 then NaN else if 0 < b then PInf else NInf)"
| "num_mul NInf (Fin b) = (if b = 0 then NaN else if 0 < b then NInf else PInf)"
| "num_mul PInf PInf = PInf"
| "num_mul PInf NInf = NInf"
| "num_mul NInf PInf = NInf"
| "num_mul NInf NInf = PInf"

text \<open>Division by a zero takes the zero as positive (the sign of zero is not modelled);
  no division of the pipeline has a zero divisor.\<close>

fun num_div :: "jsnum \<Rightarrow> jsnum \<Rightarrow> jsnum" where
  "num_div NaN _ = NaN"
| "num_div _ NaN = NaN"
| "num_div (Fin a) (Fin b) =
     (if b = 0 then (if a = 0 then NaN else if 0 < a then PInf else NInf) else Fin (a / b))"
| "num_div (Fin a) PInf = Fin 0"
| "num_div (Fin a) NInf = Fin 0"
| "num_div PInf (Fin b) = (if 0 \<le> b then PInf else NInf)"
| "num_div NInf (Fin b) = (if 0 \<le> b then NInf else PInf)"
| "num_div PInf PInf = NaN"
| "num_div PInf NInf = NaN"
| "num_div NInf PInf = NaN"
| "num_div NInf NInf = NaN"

fun num_lt :: "jsnum \<Rightarrow> jsnum \<Rightarrow> bool" where
  "num_lt NaN _ = False"
| "num_lt _ NaN = False"
| "num_lt (Fin a) (Fin b) = (a < b)"
| "num_lt NInf NInf = False"
| "num_lt NInf _ = True"
| "num_lt _ NInf = False"
| "num_lt PInf _ = False"
| "num_lt _ PInf = True"

definition num_le :: "jsnum \<Rightarrow> jsnum \<Rightarrow> bool" where
  "num_le a b = (a \<noteq> NaN \<and> b \<noteq> NaN \<and> (a = b \<or> num_lt a b))"

text \<open>\<^verbatim>\<open>===\<close> and \<^verbatim>\<open>!==\<close> on two numbers: NaN differs from itself.\<close>

definition num_eq :: "jsnum \<Rightarrow> jsnum \<Rightarrow> bool" where
  "num_eq a b = (a \<noteq> NaN \<and> a = b)"

subsection \<open>Values and records\<close>

datatype jsval = JUndef | JNull | JBool bool | JNum jsnum | JStr string

text \<open>An object is the list of its properties in insertion order; reading a property that
  is absent gives \<^verbatim>\<open>undefined\<close>, writing one replaces it in place or appends it.\<close>

type_synonym jsobject = "(string \<times> jsval) list"

definition get_prop :: "jsobject \<Rightarrow> string \<Rightarrow> jsval" where
  "get_prop d k = (case map_of d k of None \<Rightarrow> JUndef | Some v \<Rightarrow> v)"

definition set_prop :: "jsobject \<Rightarrow> string \<Rightarrow> jsval \<Rightarrow> jsobject" where
  "set_prop d k v = AList.update k v d"

definition js_typeof :: "jsval \<Rightarrow> string" where
  "js_typeof v = (case v of JUndef \<Rightarrow> ''undefined'' | JNull \<Rightarrow> ''object''
     | JBool _ \<Rightarrow> ''boolean'' | JNum _ \<Rightarrow> ''number'' | JStr _ \<Rightarrow> ''string'')"

text \<open>\<^verbatim>\<open>v == null\<close> holds for \<^verbatim>\<open>null\<close> and \<^verbatim>\<open>undefined\<close> only.\<close>

definition is_nullish :: "jsval \<Rightarrow> bool" where
  "is_nullish v = (v = JNull \<or> v = JUndef)"

subsection \<open>Strings to numbers\<close>

definition digit_of_char :: "char \<Rightarrow> nat option" where
  "digit_of_char c = (let n = (of_char c :: nat) in
     if 48 \<le> n \<and> n \<le> 57 then Some (n - 48)
     else if 97 \<le> n \<and> n \<le> 102 then Some (n - 87)
     else if 65 \<le> n \<and> n \<le> 70 then Some (n - 55)
     else None)"

fun digits_value :: "nat \<Rightarrow> nat \<Rightarrow> string \<Rightarrow> nat option" where
  "digits_value base acc [] = Some acc"
| "digits_value base acc (c # cs) =
     (case digit_of_char c of
        None \<Rightarrow> None
      | Some d \<Rightarrow> if d < base then digits_value base (acc * base + d) cs else None)"

definition is_white_space :: "char \<Rightarrow> bool" where
  "is_white_space c = ((of_char c :: nat) \<in> {9, 10, 11, 12, 13, 32})"

definition str_trim :: "string \<Rightarrow> string" where
  "str_trim s = rev (dropWhile is_white_space (rev (dropWhile is_white_space s)))"

definition split_on :: "(char \<Rightarrow> bool) \<Rightarrow> string \<Rightarrow> string \<times> string option" where
  "split_on P s = (takeWhile (\<lambda>c. \<not> P c) s,
     case dropWhile (\<lambda>c. \<not> P c) s of [] \<Rightarrow> None | _ # r \<Rightarrow> Some r)"

definition parse_exponent :: "string option \<Rightarrow> int option" where
  "parse_exponent e = (case e of
       None \<Rightarrow> Some 0
     | Some [] \<Rightarrow> None
     | Some (c # r) \<Rightarrow>
         if c = CHR ''-'' then (if r = [] then None else map_option (\<lambda>n. - int n) (digits_value 10 0 r))
         else if c = CHR ''+'' then (if r = [] then None else map_option int (digits_value 10 0 r))
         else map_option int (digits_value 10 0 (c # r)))"

definition parse_mantissa :: "string \<Rightarrow> real option" where
  "parse_mantissa m = (case split_on (\<lambda>c. c = CHR ''.'') m of
       (ip, None) \<Rightarrow> if ip = [] then None else map_option real (digits_value 10 0 ip)
     | (ip, Some fp) \<Rightarrow>
         if ip = [] \<and> fp = [] then None
         else (case (digits_value 10 0 ip, digits_value 10 0 fp) of
                 (Some i, Some f) \<Rightarrow> Some (real i + real f / 10 ^ length fp)
               | _ \<Rightarrow> None))"

definition parse_decimal :: "string \<Rightarrow> jsnum" where
  "parse_decimal s =
     (if s = ''Infinity'' then PInf
      else case split_on (\<lambda>c. c = CHR ''e'' \<or> c = CHR ''E'') s of
        (m, e) \<Rightarrow> (case (parse_mantissa m, parse_exponent e) of
            (Some r, Some k) \<Rightarrow> Fin (if 0 \<le> k then r * 10 ^ nat k else r / 10 ^ nat (- k))
          | _ \<Rightarrow> NaN))"

definition parse_radix :: "nat \<Rightarrow> string \<Rightarrow> jsnum" where
  "parse_radix base ds =
     (if ds = [] then NaN
      else case digits_value base 0 ds of None \<Rightarrow> NaN | Some n \<Rightarrow> Fin (real n))"

text \<open>The conversion of \<^verbatim>\<open>Number(s)\<close> and of unary \<^verbatim>\<open>+\<close> on a string: white space is
  trimmed (the ASCII white space; the Unicode one is not modelled), the empty string is 0, then a
  signed decimal literal, \<^verbatim>\<open>Infinity\<close>, or an unsigned hexadecimal, octal or binary literal;
  anything else is NaN.\<close>

definition string_to_number :: "string \<Rightarrow> jsnum" where
  "string_to_number s = (case str_trim s of
       [] \<Rightarrow> Fin 0
     | c # r \<Rightarrow>
         if c = CHR ''-'' then num_neg (parse_decimal r)
         else if c = CHR ''+'' then parse_decimal r
         else if c = CHR ''0'' \<and> r \<noteq> [] \<and> hd r \<in> {CHR ''x'', CHR ''X''} then parse_radix 16 (tl r)
         else if c = CHR ''0'' \<and> r \<noteq> [] \<and> hd r \<in> {CHR ''o'', CHR ''O''} then parse_radix 8 (tl r)
         else if c = CHR ''0'' \<and> r \<noteq> [] \<and> hd r \<in> {CHR ''b'', CHR ''B''} then parse_radix 2 (tl r)
         else parse_decimal (c # r))"

definition to_number :: "jsval \<Rightarrow> jsnum" where
  "to_number v = (case v of JUndef \<Rightarrow> NaN | JNull \<Rightarrow> Fin 0
     | JBool b \<Rightarrow> (if b then Fin 1 else Fin 0) | JNum n \<Rightarrow> n | JStr s \<Rightarrow> string_to_number s)"

text \<open>The global \<^verbatim>\<open>isNaN\<close> converts its argument first.\<close>

definition js_isNaN :: "jsval \<Rightarrow> bool" where
  "js_isNaN v = (to_number v = NaN)"

subsection \<open>Numbers to strings\<close>

definition digit_char :: "nat \<Rightarrow> char" where
  "digit_char n = ''0123456789'' ! n"

fun nat_to_string :: "nat \<Rightarrow> string" where
  "nat_to_string n =
     (if n < 10 then [digit_char n] else nat_to_string (n div 10) @ [digit_char (n mod 10)])"

declare nat_to_string.simps [simp del]

fun frac_digits :: "nat \<Rightarrow> real \<Rightarrow> string" where
  "frac_digits 0 f = []"
| "frac_digits (Suc k) f =
     (if f = 0 then []
      else digit_char (nat \<lfloor>f * 10\<rfloor>) # frac_digits k (f * 10 - real (nat \<lfloor>f * 10\<rfloor>)))"

text \<open>\<^verbatim>\<open>String(x)\<close> of a finite number, in plain decimal notation. The exponent notation the
  language uses for magnitudes from \<^verbatim>\<open>1e21\<close> or below \<^verbatim>\<open>1e-6\<close> is not modelled, and
  an expansion that does not terminate is cut after twenty fractional digits.\<close>

definition real_to_string :: "real \<Rightarrow> string" where
  "real_to_string r = (let a = \<bar>r\<bar>; ip = nat \<lfloor>a\<rfloor>;
        body = nat_to_string ip @
          (if a = real ip then [] else CHR ''.'' # frac_digits (Suc (Suc (Suc (Suc (Suc (Suc (Suc (Suc (Suc (Suc (Suc (Suc (Suc (Suc (Suc (Suc (Suc (Suc (Suc (Suc 0)))))))))))))))))))) (a - real ip))
      in if r < 0 then CHR ''-'' # body else body)"

fun number_to_string :: "jsnum \<Rightarrow> string" where
  "number_to_string NaN = ''NaN''"
| "number_to_string PInf = ''Infinity''"
| "number_to_string NInf = ''-Infinity''"
| "number_to_string (Fin r) = real_to_string r"

definition to_string :: "jsval \<Rightarrow> string" where
  "to_string v = (case v of JUndef \<Rightarrow> ''undefined'' | JNull \<Rightarrow> ''null''
     | JBool b \<Rightarrow> (if b then ''true'' else ''false'') | JNum n \<Rightarrow> number_to_string n
     | JStr s \<Rightarrow> s)"

subsection \<open>Operators\<close>

text \<open>\<^verbatim>\<open>a + b\<close> concatenates as soon as one operand is a string, and adds numbers otherwise;
  \<^verbatim>\<open>a - b\<close>, \<^verbatim>\<open>a * b\<close> and \<^verbatim>\<open>a / b\<close> always convert to numbers.\<close>

definition js_plus :: "jsval \<Rightarrow> jsval \<Rightarrow> jsval" where
  "js_plus a b = (case (a, b) of
       (JStr s, _) \<Rightarrow> JStr (s @ to_string b)
     | (_, JStr t) \<Rightarrow> JStr (to_string a @ t)
     | _ \<Rightarrow> JNum (num_add (to_number a) (to_number b)))"

definition js_minus :: "jsval \<Rightarrow> jsval \<Rightarrow> jsnum" where
  "js_minus a b = num_sub (to_number a) (to_number b)"

definition js_times :: "jsval \<Rightarrow> jsval \<Rightarrow> jsnum" where
  "js_times a b = num_mul (to_number a) (to_number b)"

definition js_divide :: "jsval \<Rightarrow> jsval \<Rightarrow> jsnum" where
  "js_divide a b = num_div (to_number a) (to_number b)"

text \<open>The order of two strings by code units.\<close>

fun string_less :: "string \<Rightarrow> string \<Rightarrow> bool" where
  "string_less _ [] = False"
| "string_less [] (_ # _) = True"
| "string_less (a # s) (b # t) =
     (if (of_char a :: nat) < of_char b then True
      else if (of_char b :: nat) < of_char a then False
      else string_less s t)"

text \<open>\<^verbatim>\<open>a < b\<close>: two strings are compared as strings, anything else as numbers, and a
  comparison with NaN is false. \<^verbatim>\<open>a > b\<close> is \<^verbatim>\<open>b < a\<close>; \<^verbatim>\<open>a <= b\<close> is
  \<^verbatim>\<open>!(b < a)\<close> unless the comparison is undefined, and likewise \<^verbatim>\<open>a >= b\<close>.\<close>

definition js_less :: "jsval \<Rightarrow> jsval \<Rightarrow> bool" where
  "js_less a b = (case (a, b) of
       (JStr s, JStr t) \<Rightarrow> string_less s t
     | _ \<Rightarrow> num_lt (to_number a) (to_number b))"

definition js_greater :: "jsval \<Rightarrow> jsval \<Rightarrow> bool" where
  "js_greater a b = js_less b a"

definition js_less_eq :: "jsval \<Rightarrow> jsval \<Rightarrow> bool" where
  "js_less_eq a b = (case (a, b) of
       (JStr s, JStr t) \<Rightarrow> \<not> string_less t s
     | _ \<Rightarrow> num_le (to_number a) (to_number b))"

definition js_greater_eq :: "jsval \<Rightarrow> jsval \<Rightarrow> bool" where
  "js_greater_eq a b = js_less_eq b a"

text \<open>Strict equality \<^verbatim>\<open>===\<close> (the comparison of \<^verbatim>\<open>indexOf\<close>) and loose equality
  \<^verbatim>\<open>==\<close>.\<close>

definition js_strict_eq :: "jsval \<Rightarrow> jsval \<Rightarrow> bool" where
  "js_strict_eq a b = (a = b \<and> a \<noteq> JNum NaN)"

fun js_loose_eq :: "jsval \<Rightarrow> jsval \<Rightarrow> bool" where
  "js_loose_eq (JNum a) (JNum b) = num_eq a b"
| "js_loose_eq (JStr s) (JStr t) = (s = t)"
| "js_loose_eq (JBool a) (JBool b) = (a = b)"
| "js_loose_eq JNull JNull = True"
| "js_loose_eq JNull JUndef = True"
| "js_loose_eq JUndef JNull = True"
| "js_loose_eq JUndef JUndef = True"
| "js_loose_eq JNull _ = False"
| "js_loose_eq JUndef _ = False"
| "js_loose_eq _ JNull = False"
| "js_loose_eq _ JUndef = False"
| "js_loose_eq (JNum a) (JStr t) = num_eq a (string_to_number t)"
| "js_loose_eq (JStr s) (JNum b) = num_eq (string_to_number s) b"
| "js_loose_eq (JBool a) (JNum b) = num_eq (if a then Fin 1 else Fin 0) b"
| "js_loose_eq (JBool a) (JStr t) = num_eq (if a then Fin 1 else Fin 0) (string_to_number t)"
| "js_loose_eq (JNum a) (JBool b) = num_eq a (if b then Fin 1 else Fin 0)"
| "js_loose_eq (JStr s) (JBool b) = num_eq (string_to_number s) (if b then Fin 1 else Fin 0)"

subsection \<open>Library functions\<close>

text \<open>Modelled from the spec: \<^verbatim>\<open>String.prototype.localeCompare\<close> is provided by the host
  with a collation that depends on the locale; the specification calls its order
  ``lexicographic string compare'', which is what this definition takes: the order of the
  character codes, with result \<open>-1\<close>, \<open>0\<close> or \<open>1\<close>.\<close>

fun localeCompare :: "string \<Rightarrow> string \<Rightarrow> jsnum" where
  "localeCompare [] [] = Fin 0"
| "localeCompare [] (_ # _) = Fin (- 1)"
| "localeCompare (_ # _) [] = Fin 1"
| "localeCompare (a # s) (b # t) =
     (if (of_char a :: nat) < of_char b then Fin (- 1)
      else if (of_char b :: nat) < of_char a then Fin 1
      else localeCompare s t)"

text \<open>\<^verbatim>\<open>Array.prototype.sort\<close> with a comparator is stable; an element goes behind another
  only when the comparator's result is positive (a result NaN counts as 0). For a
  comparator that is no consistent order the language leaves the result to the
  implementation; the model is the stable insertion sort throughout.\<close>

definition num_pos :: "jsnum \<Rightarrow> bool" where
  "num_pos v = num_lt (Fin 0) v"

fun insert_by :: "('a \<Rightarrow> 'a \<Rightarrow> jsnum) \<Rightarrow> 'a \<Rightarrow> 'a list \<Rightarrow> 'a list" where
  "insert_by cmp x [] = [x]"
| "insert_by cmp x (y # ys) =
     (if num_pos (cmp x y) then y # insert_by cmp x ys else x # y # ys)"

definition sort_by :: "('a \<Rightarrow> 'a \<Rightarrow> jsnum) \<Rightarrow> 'a list \<Rightarrow> 'a list" where
  "sort_by cmp xs = foldr (insert_by cmp) xs []"

text \<open>On an array of values, \<^verbatim>\<open>sort\<close> moves every \<^verbatim>\<open>undefined\<close> to the end without asking
  the comparator.\<close>

definition array_sort :: "(jsval \<Rightarrow> jsval \<Rightarrow> jsnum) \<Rightarrow> jsval list \<Rightarrow> jsval list" where
  "array_sort cmp xs = sort_by cmp (filter (\<lambda>v. v \<noteq> JUndef) xs) @ filter (\<lambda>v. v = JUndef) xs"

text \<open>Reading an array at an index: \<^verbatim>\<open>undefined\<close> out of range.\<close>

definition array_get :: "jsval list \<Rightarrow> nat \<Rightarrow> jsval" where
  "array_get xs i = (if i < length xs then xs ! i else JUndef)"

text \<open>\<^verbatim>\<open>Math.min\<close> and \<^verbatim>\<open>Math.max\<close> convert every argument; one NaN makes the result
  NaN; without arguments they are \<open>+\<infinity>\<close> and \<open>-\<infinity>\<close>.\<close>

definition num_min2 :: "jsnum \<Rightarrow> jsnum \<Rightarrow> jsnum" where
  "num_min2 a b = (if num_lt b a then b else a)"

definition num_max2 :: "jsnum \<Rightarrow> jsnum \<Rightarrow> jsnum" where
  "num_max2 a b = (if num_lt a b then b else a)"

definition Math_min :: "jsval list \<Rightarrow> jsnum" where
  "Math_min vs = (let ns = map to_number vs in
     if list_ex (\<lambda>n. n = NaN) ns then NaN else foldr num_min2 ns PInf)"

definition Math_max :: "jsval list \<Rightarrow> jsnum" where
  "Math_max vs = (let ns = map to_number vs in
     if list_ex (\<lambda>n. n = NaN) ns then NaN else foldr num_max2 ns NInf)"

text \<open>\<^verbatim>\<open>JSON.parse(JSON.stringify(data))\<close>: a property whose value is \<^verbatim>\<open>undefined\<close> is
  dropped, a number that is not finite comes back as \<^verbatim>\<open>null\<close>, every other value as
  itself, in a new object.\<close>

fun json_value :: "jsval \<Rightarrow> jsval option" where
  "json_value JUndef = None"
| "json_value (JNum (Fin r)) = Some (JNum (Fin r))"
| "json_value (JNum _) = Some JNull"
| "json_value v = Some v"

definition json_object :: "jsobject \<Rightarrow> jsobject" where
  "json_object d = List.map_filter (\<lambda>(k, v). map_option (Pair k) (json_value v)) d"

definition json_clone :: "jsobject list \<Rightarrow> jsobject list" where
  "json_clone data = map json_object data"

section \<open>The pipeline functions\<close>

subsection \<open>identifyNumericColumns\<close>

definition types_at :: "string list \<Rightarrow> nat \<Rightarrow> string option" where
  "types_at types index = (if index < length types then Some (types ! index) else None)"

definition identifyNumericColumns :: "jsobject list \<Rightarrow> string list \<Rightarrow> string list \<Rightarrow> string list" where
  "identifyNumericColumns data features types =
     map fst (filter (\<lambda>(feature, index).
         if types_at types index = Some ''number'' then True
         else if types_at types index = Some ''enum''
           then list_all (\<lambda>datum. js_typeof (get_prop datum feature) = ''number'') data
         else False)
       (zip features [0 ..< length features]))"

subsection \<open>applyFiltering\<close>

record Filter =
  column :: string
  operator :: string
  fvalue :: jsval

definition filter_test :: "jsobject \<Rightarrow> Filter \<Rightarrow> bool" where
  "filter_test d fil = (let rowVal = get_prop d (column fil) in
     if is_nullish rowVal then False
     else if operator fil = ''=='' then js_loose_eq rowVal (fvalue fil)
     else if operator fil = ''<'' then js_less rowVal (JNum (to_number (fvalue fil)))
     else if operator fil = ''<='' then js_less_eq rowVal (JNum (to_number (fvalue fil)))
     else if operator fil = ''>'' then js_greater rowVal (JNum (to_number (fvalue fil)))
     else if operator fil = ''>='' then js_greater_eq rowVal (JNum (to_number (fvalue fil)))
     else True)"

definition applyFiltering :: "jsobject list \<Rightarrow> Filter list \<Rightarrow> jsobject list" where
  "applyFiltering data filters = filter (\<lambda>d. list_all (filter_test d) filters) data"

subsection \<open>sortData\<close>

definition sortData_compare :: "string \<Rightarrow> string \<Rightarrow> jsobject \<Rightarrow> jsobject \<Rightarrow> jsnum" where
  "sortData_compare key order a b = (let valA = get_prop a key; valB = get_prop b key in
     case (valA, valB) of
       (JNum m, JNum n) \<Rightarrow> if order = ''asc'' then num_sub m n else num_sub n m
     | (JStr s, JStr t) \<Rightarrow> if order = ''asc'' then localeCompare s t else localeCompare t s
     | _ \<Rightarrow> Fin 0)"

definition sortData :: "jsobject list \<Rightarrow> string \<Rightarrow> string \<Rightarrow> jsobject list" where
  "sortData data key order =
     (if key = [] \<or> length data = 0 then data else sort_by (sortData_compare key order) data)"

subsection \<open>applyNormalization\<close>

definition normalize_feature :: "jsobject list \<Rightarrow> string \<Rightarrow> jsobject list" where
  "normalize_feature normalizedData feature =
     (let vals = map (\<lambda>d. get_prop d feature) normalizedData;
          mn = Math_min vals;
          mx = Math_max vals
      in if \<not> num_eq mn mx
         then map (\<lambda>datum. set_prop datum feature
                (JNum (num_div (js_minus (get_prop datum feature) (JNum mn)) (num_sub mx mn))))
              normalizedData
         else normalizedData)"

definition applyNormalization :: "jsobject list \<Rightarrow> string list \<Rightarrow> jsobject list" where
  "applyNormalization data numericFeatures = foldl normalize_feature (json_clone data) numericFeatures"

subsection \<open>removeOutliers\<close>

definition splice1 :: "nat \<Rightarrow> 'a list \<Rightarrow> 'a list" where
  "splice1 i xs = take i xs @ drop (Suc i) xs"

text \<open>The loop \<^verbatim>\<open>for (let i = filteredData.length - 1; i >= 0; i--)\<close>; the first argument
  is \<open>i + 1\<close>. The upper bound comes from \<^verbatim>\<open>Q3 + threshold * IQR\<close>, which is a string
  when \<^verbatim>\<open>Q3\<close> is one.\<close>

fun outlier_loop :: "string \<Rightarrow> jsnum \<Rightarrow> jsval \<Rightarrow> nat \<Rightarrow> jsobject list \<Rightarrow> jsobject list" where
  "outlier_loop feature lowerBound upperBound 0 filteredData = filteredData"
| "outlier_loop feature lowerBound upperBound (Suc i) filteredData =
     (let v = get_prop (filteredData ! i) feature
      in outlier_loop feature lowerBound upperBound i
           (if js_less v (JNum lowerBound) \<or> js_greater v upperBound
            then splice1 i filteredData else filteredData))"

definition remove_feature_outliers :: "jsnum \<Rightarrow> jsobject list \<Rightarrow> string \<Rightarrow> jsobject list" where
  "remove_feature_outliers threshold filteredData feature =
     (let vals = map (\<lambda>d. get_prop d feature) filteredData;
          sortedValues = array_sort js_minus vals;
          Q1 = array_get sortedValues (length sortedValues div 4);
          Q3 = array_get sortedValues ((length sortedValues * 3) div 4);
          IQR = js_minus Q3 Q1;
          lowerBound = js_minus Q1 (JNum (num_mul threshold IQR));
          upperBound = js_plus Q3 (JNum (num_mul threshold IQR))
      in outlier_loop feature lowerBound upperBound (length filteredData) filteredData)"

definition removeOutliers :: "jsobject list \<Rightarrow> string list \<Rightarrow> jsnum \<Rightarrow> jsobject list" where
  "removeOutliers data numericFeatures threshold =
     foldl (remove_feature_outliers threshold) (json_clone data) numericFeatures"

subsection \<open>buildHeatmapData\<close>

definition sortFunction :: "jsval \<Rightarrow> jsval \<Rightarrow> jsnum" where
  "sortFunction a b =
     (if \<not> js_isNaN a \<and> \<not> js_isNaN b then num_sub (to_number a) (to_number b)
      else localeCompare (to_string a) (to_string b))"

text \<open>\<^verbatim>\<open>Array.from(new Set(xs))\<close>: the first occurrence of every value, in order.\<close>

definition array_from_set :: "'a list \<Rightarrow> 'a list" where
  "array_from_set xs = foldl (\<lambda>acc x. if x \<in> set acc then acc else acc @ [x]) [] xs"

text \<open>\<^verbatim>\<open>indexOf\<close> compares with \<^verbatim>\<open>===\<close>; \<open>None\<close> is its \<open>-1\<close>.\<close>

fun index_of :: "jsval list \<Rightarrow> jsval \<Rightarrow> nat option" where
  "index_of [] v = None"
| "index_of (u # us) v = (if js_strict_eq u v then Some 0 else map_option Suc (index_of us v))"

record heatmap =
  hm_values :: "jsval list list"
  rowLabels :: "jsval list"
  colLabels :: "jsval list"

definition heatmap_accumulate ::
  "jsval list \<Rightarrow> jsval list \<Rightarrow> string \<Rightarrow> string \<Rightarrow> string \<Rightarrow> jsval list list \<Rightarrow> jsobject \<Rightarrow> jsval list list" where
  "heatmap_accumulate rowLabs colLabs rowFeature colFeature valueFeature matrix datum =
     (case (index_of rowLabs (get_prop datum rowFeature), index_of colLabs (get_prop datum colFeature)) of
        (Some rowIndex, Some colIndex) \<Rightarrow>
          matrix[rowIndex := (matrix ! rowIndex)[colIndex :=
            js_plus (matrix ! rowIndex ! colIndex) (get_prop datum valueFeature)]]
      | _ \<Rightarrow> matrix)"

definition buildHeatmapData :: "jsobject list \<Rightarrow> string \<Rightarrow> string \<Rightarrow> string \<Rightarrow> heatmap" where
  "buildHeatmapData data rowFeature colFeature valueFeature =
     (let rowLabs = array_sort sortFunction (array_from_set (map (\<lambda>d. get_prop d rowFeature) data));
          colLabs = array_sort sortFunction (array_from_set (map (\<lambda>d. get_prop d colFeature) data));
          matrix = replicate (length rowLabs) (replicate (length colLabs) (JNum (Fin 0)))
      in \<lparr>hm_values = foldl (heatmap_accumulate rowLabs colLabs rowFeature colFeature valueFeature) matrix data,
          rowLabels = rowLabs, colLabels = colLabs\<rparr>)"

subsection \<open>aggregateData\<close>

text \<open>The \<^verbatim>\<open>Map\<close> from group key to the list of the group's values, in insertion order.\<close>

type_synonym groups = "(jsval \<times> jsnum list) list"

definition group_key :: "jsval \<Rightarrow> jsval" where
  "group_key g = (if js_typeof g = ''number'' \<or> js_typeof g = ''string'' then g else JStr (to_string g))"

definition groups_push :: "groups \<Rightarrow> jsval \<Rightarrow> jsnum \<Rightarrow> groups" where
  "groups_push groupsMap groupKey v =
     (let m = (if map_of groupsMap groupKey = None then AList.update groupKey [] groupsMap else groupsMap)
      in case map_of m groupKey of None \<Rightarrow> m | Some vs \<Rightarrow> AList.update groupKey (vs @ [v]) m)"

definition row_skipped :: "string \<Rightarrow> string \<Rightarrow> jsobject \<Rightarrow> bool" where
  "row_skipped groupFeature numericFeature row =
     (let g = get_prop row groupFeature; v = get_prop row numericFeature
      in is_nullish g \<or> is_nullish v \<or> js_typeof v \<noteq> ''number'' \<or> js_isNaN v)"

definition group_rows :: "string \<Rightarrow> string \<Rightarrow> jsobject list \<Rightarrow> groups" where
  "group_rows groupFeature numericFeature data =
     foldl (\<lambda>groupsMap row.
         if row_skipped groupFeature numericFeature row then groupsMap
         else groups_push groupsMap (group_key (get_prop row groupFeature))
                (to_number (get_prop row numericFeature)))
       [] data"

definition average :: "jsnum list \<Rightarrow> jsnum" where
  "average vs = num_div (foldl num_add (Fin 0) vs) (Fin (real (length vs)))"

definition median :: "jsnum list \<Rightarrow> jsnum" where
  "median vs = (let sortedVals = sort_by num_sub vs; mid = length sortedVals div 2
     in if length sortedVals mod 2 = 0
        then num_div (num_add (sortedVals ! (mid - 1)) (sortedVals ! mid)) (Fin 2)
        else sortedVals ! mid)"

definition aggregate_values :: "string \<Rightarrow> jsnum list \<Rightarrow> jsnum" where
  "aggregate_values method vs =
     (if method = ''sum'' then foldl num_add (Fin 0) vs
      else if method = ''average'' then average vs
      else if method = ''median'' then median vs
      else if method = ''min'' then Math_min (map JNum vs)
      else if method = ''max'' then Math_max (map JNum vs)
      else average vs)"

record agg_entry =
  group :: jsval
  agg_value :: jsnum

definition aggregate_compare :: "agg_entry \<Rightarrow> agg_entry \<Rightarrow> jsnum" where
  "aggregate_compare a b = (case (group a, group b) of
       (JNum m, JNum n) \<Rightarrow> num_sub m n
     | (ga, gb) \<Rightarrow> localeCompare (to_string ga) (to_string gb))"

definition aggregateData :: "jsobject list \<Rightarrow> string \<Rightarrow> string \<Rightarrow> string \<Rightarrow> agg_entry list" where
  "aggregateData data groupFeature numericFeature method =
     (if length data = 0 then []
      else sort_by aggregate_compare
             (map (\<lambda>(g, vs). \<lparr>group = g, agg_value = aggregate_values method vs\<rparr>)
                (filter (\<lambda>(g, vs). length vs \<noteq> 0) (group_rows groupFeature numericFeature data))))"

subsection \<open>The projections of the line chart and of the scatter plot\<close>

record point =
  point_x :: jsval
  point_y :: jsval

text \<open>What \<^verbatim>\<open>_Linechart\<close> and \<^verbatim>\<open>_Scatterplot\<close> hand to the renderer as the one series
  of \<^verbatim>\<open>values\<close>.\<close>

definition project_xy :: "jsobject list \<Rightarrow> string \<Rightarrow> string \<Rightarrow> point list" where
  "project_xy data xFeature yFeature =
     map (\<lambda>datum. \<lparr>point_x = get_prop datum xFeature, point_y = get_prop datum yFeature\<rparr>) data"

definition Linechart_line :: "jsobject list \<Rightarrow> string \<Rightarrow> string \<Rightarrow> point list" where
  "Linechart_line data xFeature yFeature =
     sort_by (\<lambda>a b. js_minus (point_x a) (point_x b)) (project_xy data xFeature yFeature)"

definition Scatterplot_scatterValues :: "jsobject list \<Rightarrow> string \<Rightarrow> string \<Rightarrow> point list" where
  "Scatterplot_scatterValues data xFeature yFeature = project_xy data xFeature yFeature"

section \<open>The same stages on a store\<close>

text \<open>
  Whether a stage returns a new array and whether it writes to the caller's records is a
  question about references. Here an array is a cell holding the addresses of its
  records, a record is a cell holding its properties, an address is an index into the
  store, and \<^verbatim>\<open>slice\<close>, \<^verbatim>\<open>filter\<close>, \<^verbatim>\<open>map\<close> and \<^verbatim>\<open>JSON.parse\<close> allocate at the
  end of it. Each function below takes the store and the address of \<^verbatim>\<open>data\<close> and returns
  the new store and the address it returns.
\<close>

datatype cell = Obj jsobject | Arr "nat list"

type_synonym store = "cell list"

definition alloc :: "store \<Rightarrow> cell \<Rightarrow> store \<times> nat" where
  "alloc h c = (h @ [c], length h)"

definition obj_of :: "store \<Rightarrow> nat \<Rightarrow> jsobject" where
  "obj_of h r = (if r < length h then (case h ! r of Obj d \<Rightarrow> d | Arr _ \<Rightarrow> []) else [])"

definition arr_of :: "store \<Rightarrow> nat \<Rightarrow> nat list" where
  "arr_of h a = (if a < length h then (case h ! a of Arr rs \<Rightarrow> rs | Obj _ \<Rightarrow> []) else [])"

text \<open>The records an array holds, by value.\<close>

definition deref :: "store \<Rightarrow> nat \<Rightarrow> jsobject list" where
  "deref h a = map (obj_of h) (arr_of h a)"

definition sortData_st :: "store \<Rightarrow> nat \<Rightarrow> string \<Rightarrow> string \<Rightarrow> store \<times> nat" where
  "sortData_st h data key order =
     (if key = [] \<or> length (arr_of h data) = 0 then (h, data)
      else (let (h1, copy) = alloc h (Arr (arr_of h data))
            in (h1[copy := Arr (sort_by (\<lambda>a b. sortData_compare key order (obj_of h1 a) (obj_of h1 b))
                                   (arr_of h1 copy))], copy)))"

definition applyFiltering_st :: "store \<Rightarrow> nat \<Rightarrow> Filter list \<Rightarrow> store \<times> nat" where
  "applyFiltering_st h data filters =
     alloc h (Arr (filter (\<lambda>d. list_all (filter_test (obj_of h d)) filters) (arr_of h data)))"

fun json_clone_objs :: "store \<Rightarrow> nat list \<Rightarrow> store \<times> nat list" where
  "json_clone_objs h [] = (h, [])"
| "json_clone_objs h (r # rs) =
     (let (h1, r') = alloc h (Obj (json_object (obj_of h r)));
          (h2, rs') = json_clone_objs h1 rs
      in (h2, r' # rs'))"

definition json_clone_st :: "store \<Rightarrow> nat \<Rightarrow> store \<times> nat" where
  "json_clone_st h data =
     (let (h1, rs') = json_clone_objs h (arr_of h data) in alloc h1 (Arr rs'))"

definition normalize_feature_st :: "nat \<Rightarrow> store \<Rightarrow> string \<Rightarrow> store" where
  "normalize_feature_st normalizedData h feature =
     (let vals = map (\<lambda>d. get_prop (obj_of h d) feature) (arr_of h normalizedData);
          mn = Math_min vals;
          mx = Math_max vals
      in if \<not> num_eq mn mx
         then foldl (\<lambda>h' datum. h'[datum := Obj (set_prop (obj_of h' datum) feature
                  (JNum (num_div (js_minus (get_prop (obj_of h' datum) feature) (JNum mn)) (num_sub mx mn))))])
                h (arr_of h normalizedData)
         else h)"

definition applyNormalization_st :: "store \<Rightarrow> nat \<Rightarrow> string list \<Rightarrow> store \<times> nat" where
  "applyNormalization_st h data numericFeatures =
     (let (h1, normalizedData) = json_clone_st h data
      in (foldl (normalize_feature_st normalizedData) h1 numericFeatures, normalizedData))"

fun outlier_loop_st :: "string \<Rightarrow> jsnum \<Rightarrow> jsval \<Rightarrow> nat \<Rightarrow> nat \<Rightarrow> store \<Rightarrow> store" where
  "outlier_loop_st feature lowerBound upperBound filteredData 0 h = h"
| "outlier_loop_st feature lowerBound upperBound filteredData (Suc i) h =
     (let v = get_prop (obj_of h (arr_of h filteredData ! i)) feature
      in outlier_loop_st feature lowerBound upperBound filteredData i
           (if js_less v (JNum lowerBound) \<or> js_greater v upperBound
            then h[filteredData := Arr (splice1 i (arr_of h filteredData))] else h))"

definition remove_feature_outliers_st :: "jsnum \<Rightarrow> nat \<Rightarrow> store \<Rightarrow> string \<Rightarrow> store" where
  "remove_feature_outliers_st threshold filteredData h feature =
     (let vals = map (\<lambda>d. get_prop (obj_of h d) feature) (arr_of h filteredData);
          sortedValues = array_sort js_minus vals;
          Q1 = array_get sortedValues (length sortedValues div 4);
          Q3 = array_get sortedValues ((length sortedValues * 3) div 4);
          IQR = js_minus Q3 Q1;
          lowerBound = js_minus Q1 (JNum (num_mul threshold IQR));
          upperBound = js_plus Q3 (JNum (num_mul threshold IQR))
      in outlier_loop_st feature lowerBound upperBound filteredData (length (arr_of h filteredData)) h)"

definition removeOutliers_st :: "store \<Rightarrow> nat \<Rightarrow> string list \<Rightarrow> jsnum \<Rightarrow> store \<times> nat" where
  "removeOutliers_st h data numericFeatures threshold =
     (let (h1, filteredData) = json_clone_st h data
      in (foldl (remove_feature_outliers_st threshold filteredData) h1 numericFeatures, filteredData))"

section \<open>Notions used to state the properties\<close>

text \<open>The values a key holds in the \<^verbatim>\<open>Map\<close> of \<^verbatim>\<open>aggregateData\<close>, and the
  (group key, value) pairs of the rows that \<^verbatim>\<open>aggregateData\<close> does not skip.\<close>

definition glookup :: "groups \<Rightarrow> jsval \<Rightarrow> jsnum list" where
  "glookup m k = (case map_of m k of None \<Rightarrow> [] | Some vs \<Rightarrow> vs)"

definition valid_pairs :: "string \<Rightarrow> string \<Rightarrow> jsobject list \<Rightarrow> (jsval \<times> jsnum) list" where
  "valid_pairs gF nF D =
     map (\<lambda>row. (group_key (get_prop row gF), to_number (get_prop row nF)))
       (filter (\<lambda>row. \<not> row_skipped gF nF row) D)"

text \<open>The order the specification gives for the result of the aggregation: two numbers
  are compared as numbers, anything else by the order of the strings.\<close>

definition ascending_groups :: "jsval \<Rightarrow> jsval \<Rightarrow> bool" where
  "ascending_groups a b = (case (a, b) of
       (JNum m, JNum n) \<Rightarrow> num_le m n
     | _ \<Rightarrow> \<not> string_less (to_string b) (to_string a))"

text \<open>The records one pass of the loop of \<^verbatim>\<open>removeOutliers\<close> keeps: those whose value is
  neither below the lower bound nor above the upper bound.\<close>

definition keeps :: "string \<Rightarrow> jsnum \<Rightarrow> jsval \<Rightarrow> jsobject \<Rightarrow> bool" where
  "keeps feature lowerBound upperBound d =
     (\<not> (js_less (get_prop d feature) (JNum lowerBound) \<or> js_greater (get_prop d feature) upperBound))"

text \<open>The values of one column, record by record, and what \<^verbatim>\<open>applyNormalization\<close> does to
  the values of a column in one pass.\<close>

definition column_values :: "string \<Rightarrow> jsobject list \<Rightarrow> jsval list" where
  "column_values feature data = map (\<lambda>d. get_prop d feature) data"

definition normalize_values :: "jsval list \<Rightarrow> jsval list" where
  "normalize_values vs = (let mn = Math_min vs; mx = Math_max vs in
     if \<not> num_eq mn mx
     then map (\<lambda>v. JNum (num_div (js_minus v (JNum mn)) (num_sub mx mn))) vs
     else vs)"

section \<open>Properties\<close>

subsection \<open>Conversions and comparisons\<close>

lemma to_number_simps [simp]:
  "to_number JUndef = NaN" "to_number JNull = Fin 0" "to_number (JNum n) = n"
  "to_number (JStr s) = string_to_number s"
  "to_number (JBool b) = (if b then Fin 1 else Fin 0)"
  by (simp_all add: to_number_def)

lemma num_lt_NaN_right [simp]: "num_lt a NaN = False"
  by (cases a) simp_all

lemma js_less_NaN_right: "js_less v (JNum NaN) = False"
  by (cases v) (simp_all add: js_less_def)

lemma js_less_NaN_left: "js_less (JNum NaN) v = False"
  by (cases v) (simp_all add: js_less_def)

lemma js_less_eq_NaN_right: "js_less_eq v (JNum NaN) = False"
  by (cases v) (simp_all add: js_less_eq_def num_le_def)

lemma js_less_eq_NaN_left: "js_less_eq (JNum NaN) v = False"
  by (cases v) (simp_all add: js_less_eq_def num_le_def)

lemmas string_to_number_eval =
  string_to_number_def str_trim_def is_white_space_def parse_decimal_def parse_radix_def
  split_on_def parse_mantissa_def parse_exponent_def digit_of_char_def

subsection \<open>The column classifier on an empty dataset\<close>

lemma zip_upt_conv:
  "zip xs [0 ..< length xs] = map (\<lambda>i. (xs ! i, i)) [0 ..< length xs]"
  by (rule nth_equalityI) simp_all

lemma zip_nth_conv:
  "length ys = length xs \<Longrightarrow> zip xs ys = map (\<lambda>i. (xs ! i, ys ! i)) [0 ..< length xs]"
  by (rule nth_equalityI) simp_all

text \<open>
  Claim C10. On an empty dataset, and for a type list as long as the feature list,
  \<^verbatim>\<open>identifyNumericColumns\<close> returns exactly the features declared \<^verbatim>\<open>number\<close> or
  \<^verbatim>\<open>enum\<close>, in order: \<^verbatim>\<open>data.every(...)\<close> is true of no records, so every column
  declared \<^verbatim>\<open>enum\<close> is taken as numeric.
\<close>

theorem identifyNumericColumns_empty_data:
  assumes "length types = length features"
  shows "identifyNumericColumns [] features types =
         map fst (filter (\<lambda>(feature, ty). ty = ''number'' \<or> ty = ''enum'') (zip features types))"
proof -
  let ?n = "length features"
  have lhs: "identifyNumericColumns [] features types =
      map (\<lambda>i. features ! i)
        (filter (\<lambda>i. types ! i = ''number'' \<or> types ! i = ''enum'') [0 ..< ?n])"
    unfolding identifyNumericColumns_def zip_upt_conv filter_map map_map
    using assms
    by (intro arg_cong2 [where f = map] filter_cong) (auto simp: types_at_def fun_eq_iff)
  have rhs: "map fst (filter (\<lambda>(feature, ty). ty = ''number'' \<or> ty = ''enum'') (zip features types)) =
      map (\<lambda>i. features ! i)
        (filter (\<lambda>i. types ! i = ''number'' \<or> types ! i = ''enum'') [0 ..< ?n])"
    unfolding zip_nth_conv [OF assms]
    by (simp add: filter_map comp_def)
  with lhs show ?thesis by simp
qed

theorem identifyNumericColumns_empty_data_witness:
  "length [''number'', ''enum'', ''string''] = length [''age'', ''grade'', ''name''] \<and>
   identifyNumericColumns [] [''age'', ''grade'', ''name''] [''number'', ''enum'', ''string'']
     = [''age'', ''grade'']"
proof -
  have h: "length [''number'', ''enum'', ''string''] = length [''age'', ''grade'', ''name'']"
    by simp
  show ?thesis
    using h identifyNumericColumns_empty_data [OF h] by simp
qed

subsection \<open>The filter stage\<close>

text \<open>
  Claim C5. \<^verbatim>\<open>applyFiltering\<close> is idempotent for every dataset and every filter list, and
  with the empty filter list it returns the records of the dataset, all of them, in order.
\<close>

theorem applyFiltering_idempotent:
  "applyFiltering (applyFiltering D F) F = applyFiltering D F \<and> applyFiltering D [] = D"
  by (simp add: applyFiltering_def)

theorem applyFiltering_idempotent_witness:
  "applyFiltering
     (applyFiltering [[(''n'', JNum (Fin 1))], [(''n'', JNum (Fin 5))], [(''m'', JNum (Fin 7))]]
        [\<lparr>column = ''n'', operator = ''>'', fvalue = JStr ''2''\<rparr>])
     [\<lparr>column = ''n'', operator = ''>'', fvalue = JStr ''2''\<rparr>]
   = [[(''n'', JNum (Fin 5))]]"
  using applyFiltering_idempotent
    [of "[[(''n'', JNum (Fin 1))], [(''n'', JNum (Fin 5))], [(''m'', JNum (Fin 7))]]"
        "[\<lparr>column = ''n'', operator = ''>'', fvalue = JStr ''2''\<rparr>]"]
  by (simp add: applyFiltering_def filter_test_def get_prop_def is_nullish_def js_greater_def
        js_less_def string_to_number_eval)



subsection \<open>Sorting with a comparator\<close>

lemma set_insert_by [simp]: "set (insert_by cmp x ys) = insert x (set ys)"
  by (induction ys) auto

lemma mset_insert_by [simp]: "mset (insert_by cmp x ys) = add_mset x (mset ys)"
  by (induction ys) auto

lemma sort_by_Nil [simp]: "sort_by cmp [] = []"
  by (simp add: sort_by_def)

lemma sort_by_Cons: "sort_by cmp (x # xs) = insert_by cmp x (sort_by cmp xs)"
  by (simp add: sort_by_def)

lemma mset_sort_by [simp]: "mset (sort_by cmp xs) = mset xs"
  by (induction xs) (simp_all add: sort_by_Cons)

lemma set_sort_by [simp]: "set (sort_by cmp xs) = set xs"
  by (induction xs) (simp_all add: sort_by_Cons)

lemma length_sort_by [simp]: "length (sort_by cmp xs) = length xs"
  using mset_sort_by [of cmp xs] by (metis size_mset)

lemma distinct_sort_by [simp]: "distinct (sort_by cmp xs) = distinct xs"
  using mset_sort_by [of cmp xs] by (metis mset_eq_imp_distinct_iff)

text \<open>The sort puts a list in order whenever, on the elements of the list, the comparator
  decides a transitive relation.\<close>

lemma sorted_wrt_insert_by:
  assumes trans: "\<And>a b c. a \<in> A \<Longrightarrow> b \<in> A \<Longrightarrow> c \<in> A \<Longrightarrow> R a b \<Longrightarrow> R b c \<Longrightarrow> R a c"
    and le: "\<And>a b. a \<in> A \<Longrightarrow> b \<in> A \<Longrightarrow> \<not> num_pos (cmp a b) \<Longrightarrow> R a b"
    and gt: "\<And>a b. a \<in> A \<Longrightarrow> b \<in> A \<Longrightarrow> num_pos (cmp a b) \<Longrightarrow> R b a"
    and "x \<in> A" "set ys \<subseteq> A" "sorted_wrt R ys"
  shows "sorted_wrt R (insert_by cmp x ys)"
  using assms(4-)
proof (induction ys)
  case Nil
  then show ?case by simp
next
  case (Cons y ys)
  show ?case
  proof (cases "num_pos (cmp x y)")
    case True
    with Cons gt [of x y] show ?thesis by auto
  next
    case False
    with Cons.prems le [of x y] have xy: "R x y" by simp
    have "R x z" if "z \<in> set ys" for z
      using trans [of x y z] xy that Cons.prems by auto
    with False xy Cons.prems show ?thesis by simp
  qed
qed

lemma sorted_wrt_sort_by:
  assumes trans: "\<And>a b c. a \<in> A \<Longrightarrow> b \<in> A \<Longrightarrow> c \<in> A \<Longrightarrow> R a b \<Longrightarrow> R b c \<Longrightarrow> R a c"
    and le: "\<And>a b. a \<in> A \<Longrightarrow> b \<in> A \<Longrightarrow> \<not> num_pos (cmp a b) \<Longrightarrow> R a b"
    and gt: "\<And>a b. a \<in> A \<Longrightarrow> b \<in> A \<Longrightarrow> num_pos (cmp a b) \<Longrightarrow> R b a"
    and "set xs \<subseteq> A"
  shows "sorted_wrt R (sort_by cmp xs)"
  using assms(4)
proof (induction xs)
  case Nil
  then show ?case by simp
next
  case (Cons x xs)
  then show ?case
    using sorted_wrt_insert_by [of A R cmp x "sort_by cmp xs", OF trans le gt]
    by (simp add: sort_by_Cons)
qed

lemma num_le_trans: "num_le a b \<Longrightarrow> num_le b c \<Longrightarrow> num_le a c"
  by (cases a; cases b; cases c) (auto simp: num_le_def)

lemma num_sub_not_pos_le: "a \<noteq> NaN \<Longrightarrow> b \<noteq> NaN \<Longrightarrow> \<not> num_pos (num_sub a b) \<Longrightarrow> num_le a b"
  by (cases a; cases b) (auto simp: num_le_def num_pos_def num_sub_def)

lemma num_sub_pos_ge: "num_pos (num_sub a b) \<Longrightarrow> num_le b a"
  by (cases a; cases b) (auto simp: num_le_def num_pos_def num_sub_def)

text \<open>Sorting by the difference of a numeric key, as \<^verbatim>\<open>(a, b) => a.x - b.x\<close> does.\<close>

lemma sorted_wrt_sort_by_key:
  assumes "\<forall>a \<in> set xs. key a \<noteq> NaN"
  shows "sorted_wrt (\<lambda>a b. num_le (key a) (key b)) (sort_by (\<lambda>a b. num_sub (key a) (key b)) xs)"
proof (rule sorted_wrt_sort_by [where A = "{a. key a \<noteq> NaN}"])
  show "set xs \<subseteq> {a. key a \<noteq> NaN}" using assms by auto
qed (auto intro: num_le_trans num_sub_not_pos_le num_sub_pos_ge)

subsection \<open>The projections of the line chart and of the scatter plot\<close>

text \<open>
  Claim C2, amended. The line-chart projection is the \<open>{x, y}\<close> pairs of the records
  sorted ascending by x, whenever every x value converts to a number other than NaN, and
  it always holds the same pairs as the dataset; the scatter-plot projection is the pairs
  in the order of the dataset, not sorted. On the dataset
  \<open>[{x:1,y:10},{x:3,y:5},{x:2,y:8}]\<close> the line-chart projection is
  \<open>[{x:1,y:10},{x:2,y:8},{x:3,y:5}]\<close>.
\<close>

theorem Linechart_sorted_Scatterplot_in_dataset_order:
  "((\<forall>d \<in> set D. to_number (get_prop d xFeature) \<noteq> NaN) \<longrightarrow>
      sorted_wrt (\<lambda>a b. num_le (to_number (point_x a)) (to_number (point_x b)))
        (Linechart_line D xFeature yFeature)) \<and>
   mset (Linechart_line D xFeature yFeature) = mset (project_xy D xFeature yFeature) \<and>
   Scatterplot_scatterValues D xFeature yFeature = project_xy D xFeature yFeature \<and>
   Linechart_line
     [[(''x'', JNum (Fin 1)), (''y'', JNum (Fin 10))],
      [(''x'', JNum (Fin 3)), (''y'', JNum (Fin 5))],
      [(''x'', JNum (Fin 2)), (''y'', JNum (Fin 8))]] ''x'' ''y''
   = [\<lparr>point_x = JNum (Fin 1), point_y = JNum (Fin 10)\<rparr>,
      \<lparr>point_x = JNum (Fin 2), point_y = JNum (Fin 8)\<rparr>,
      \<lparr>point_x = JNum (Fin 3), point_y = JNum (Fin 5)\<rparr>]"
proof (intro conjI impI)
  assume "\<forall>d \<in> set D. to_number (get_prop d xFeature) \<noteq> NaN"
  then have "\<forall>a \<in> set (project_xy D xFeature yFeature). to_number (point_x a) \<noteq> NaN"
    by (auto simp: project_xy_def)
  from sorted_wrt_sort_by_key [of "project_xy D xFeature yFeature" "\<lambda>a. to_number (point_x a)", OF this]
  show "sorted_wrt (\<lambda>a b. num_le (to_number (point_x a)) (to_number (point_x b)))
        (Linechart_line D xFeature yFeature)"
    by (simp add: Linechart_line_def js_minus_def)
next
  show "mset (Linechart_line D xFeature yFeature) = mset (project_xy D xFeature yFeature)"
    by (simp add: Linechart_line_def)
next
  show "Scatterplot_scatterValues D xFeature yFeature = project_xy D xFeature yFeature"
    by (simp add: Scatterplot_scatterValues_def)
next
  show "Linechart_line
     [[(''x'', JNum (Fin 1)), (''y'', JNum (Fin 10))],
      [(''x'', JNum (Fin 3)), (''y'', JNum (Fin 5))],
      [(''x'', JNum (Fin 2)), (''y'', JNum (Fin 8))]] ''x'' ''y''
   = [\<lparr>point_x = JNum (Fin 1), point_y = JNum (Fin 10)\<rparr>,
      \<lparr>point_x = JNum (Fin 2), point_y = JNum (Fin 8)\<rparr>,
      \<lparr>point_x = JNum (Fin 3), point_y = JNum (Fin 5)\<rparr>]"
    by (simp add: Linechart_line_def project_xy_def get_prop_def sort_by_def js_minus_def
          num_sub_def num_pos_def)
qed

theorem Linechart_sorted_Scatterplot_in_dataset_order_witness:
  "to_number (get_prop [(''x'', JNum (Fin 4))] ''x'') \<noteq> NaN \<and>
   to_number (get_prop [(''x'', JStr ''1.5'')] ''x'') \<noteq> NaN \<and>
   sorted_wrt (\<lambda>a b. num_le (to_number (point_x a)) (to_number (point_x b)))
     (Linechart_line [[(''x'', JNum (Fin 4))], [(''x'', JStr ''1.5'')]] ''x'' ''y'') \<and>
   Linechart_line [[(''x'', JNum (Fin 4))], [(''x'', JStr ''1.5'')]] ''x'' ''y''
     = [\<lparr>point_x = JStr ''1.5'', point_y = JUndef\<rparr>, \<lparr>point_x = JNum (Fin 4), point_y = JUndef\<rparr>]"
proof -
  have h: "\<forall>d \<in> set [[(''x'', JNum (Fin 4))], [(''x'', JStr ''1.5'')]].
             to_number (get_prop d ''x'') \<noteq> NaN"
    by (simp add: get_prop_def string_to_number_eval)
  have e: "Linechart_line [[(''x'', JNum (Fin 4))], [(''x'', JStr ''1.5'')]] ''x'' ''y''
     = [\<lparr>point_x = JStr ''1.5'', point_y = JUndef\<rparr>, \<lparr>point_x = JNum (Fin 4), point_y = JUndef\<rparr>]"
    by (simp add: Linechart_line_def project_xy_def get_prop_def sort_by_def js_minus_def
          num_sub_def num_pos_def string_to_number_eval)
  show ?thesis
    using h e Linechart_sorted_Scatterplot_in_dataset_order
      [of "[[(''x'', JNum (Fin 4))], [(''x'', JStr ''1.5'')]]" "''x''" "''y''"]
    by simp
qed

text \<open>The claim as stated fails for the scatter plot: on the dataset of the claim its
  projection has x = 3 before x = 2.\<close>

theorem Scatterplot_sorted_counterexample:
  "\<not> sorted_wrt (\<lambda>a b. num_le (to_number (point_x a)) (to_number (point_x b)))
     (Scatterplot_scatterValues
        [[(''x'', JNum (Fin 1)), (''y'', JNum (Fin 10))],
         [(''x'', JNum (Fin 3)), (''y'', JNum (Fin 5))],
         [(''x'', JNum (Fin 2)), (''y'', JNum (Fin 8))]] ''x'' ''y'')"
  by (simp add: Scatterplot_scatterValues_def project_xy_def get_prop_def num_le_def)

subsection \<open>Aggregation\<close>

lemma glookup_push:
  "glookup (groups_push m k x) k' = glookup m k' @ (if k' = k then [x] else [])"
  by (auto simp: glookup_def groups_push_def Let_def update_conv' split: option.splits)

lemma keys_push: "fst ` set (groups_push m k x) = insert k (fst ` set m)"
  by (auto simp: groups_push_def Let_def dom_update update_conv' split: option.splits)

lemma distinct_push: "distinct (map fst m) \<Longrightarrow> distinct (map fst (groups_push m k x))"
  by (auto simp: groups_push_def Let_def distinct_update split: option.splits)

lemma group_rows_conv:
  "group_rows gF nF D = foldl (\<lambda>m (k, x). groups_push m k x) [] (valid_pairs gF nF D)"
proof -
  have "foldl (\<lambda>groupsMap row.
         if row_skipped gF nF row then groupsMap
         else groups_push groupsMap (group_key (get_prop row gF)) (to_number (get_prop row nF))) m D
      = foldl (\<lambda>m (k, x). groups_push m k x) m (valid_pairs gF nF D)" for m
    by (induction D arbitrary: m) (simp_all add: valid_pairs_def)
  then show ?thesis by (simp add: group_rows_def)
qed

lemma glookup_Nil [simp]: "glookup [] k = []"
  by (simp add: glookup_def)

lemma foldl_push_distinct:
  "distinct (map fst m) \<Longrightarrow> distinct (map fst (foldl (\<lambda>m (k, x). groups_push m k x) m ps))"
  by (induction ps arbitrary: m) (auto simp: distinct_push)

lemma foldl_push_keys:
  "fst ` set (foldl (\<lambda>m (k, x). groups_push m k x) m ps) = fst ` set m \<union> fst ` set ps"
proof (induction ps arbitrary: m)
  case Nil
  then show ?case by simp
next
  case (Cons p ps)
  obtain k x where p: "p = (k, x)" by (cases p)
  have "fst ` set (foldl (\<lambda>m (k, x). groups_push m k x) m (p # ps))
      = fst ` set (groups_push m k x) \<union> fst ` set ps"
    using Cons.IH [of "groups_push m k x"] by (simp add: p)
  then show ?case by (simp add: keys_push p)
qed

lemma foldl_push_lookup:
  "glookup (foldl (\<lambda>m (k, x). groups_push m k x) m ps) k
     = glookup m k @ map snd (filter (\<lambda>p. fst p = k) ps)"
  by (induction ps arbitrary: m) (auto simp: glookup_push)

lemma group_rows_distinct: "distinct (map fst (group_rows gF nF D))"
  by (simp add: group_rows_conv foldl_push_distinct)

lemma group_rows_keys: "fst ` set (group_rows gF nF D) = fst ` set (valid_pairs gF nF D)"
  by (simp add: group_rows_conv foldl_push_keys)

lemma group_rows_lookup:
  "glookup (group_rows gF nF D) k = map snd (filter (\<lambda>p. fst p = k) (valid_pairs gF nF D))"
  by (simp add: group_rows_conv foldl_push_lookup)

lemma group_rows_entry:
  assumes "(k, vs) \<in> set (group_rows gF nF D)"
  shows "vs = map snd (filter (\<lambda>p. fst p = k) (valid_pairs gF nF D))" and "vs \<noteq> []"
proof -
  from assms group_rows_distinct [of gF nF D] have "map_of (group_rows gF nF D) k = Some vs"
    by simp
  then have "glookup (group_rows gF nF D) k = vs" by (simp add: glookup_def)
  then show vs: "vs = map snd (filter (\<lambda>p. fst p = k) (valid_pairs gF nF D))"
    by (simp add: group_rows_lookup)
  from assms have "k \<in> fst ` set (valid_pairs gF nF D)"
    using group_rows_keys [of gF nF D] by (metis fst_conv image_eqI)
  then show "vs \<noteq> []"
    unfolding vs by (auto simp: filter_empty_conv)
qed

lemma aggregateData_conv:
  "aggregateData D gF nF m =
     sort_by aggregate_compare
       (map (\<lambda>(g, vs). \<lparr>group = g, agg_value = aggregate_values m vs\<rparr>) (group_rows gF nF D))"
proof -
  have "filter (\<lambda>(g, vs). length vs \<noteq> 0) (group_rows gF nF D) = group_rows gF nF D"
    by (auto simp: filter_id_conv dest: group_rows_entry(2))
  moreover have "group_rows gF nF [] = []" by (simp add: group_rows_def)
  ultimately show ?thesis by (cases D) (simp_all add: aggregateData_def)
qed

lemma valid_pairs_values:
  "map snd (filter (\<lambda>p. fst p = k) (valid_pairs gF nF D)) =
   map (\<lambda>row. to_number (get_prop row nF))
     (filter (\<lambda>row. \<not> row_skipped gF nF row \<and> group_key (get_prop row gF) = k) D)"
  by (induction D) (auto simp: valid_pairs_def)

lemma aggregateData_groups:
  "mset (map group (aggregateData D gF nF m)) = mset (map fst (group_rows gF nF D))"
proof -
  have "mset (map group (aggregateData D gF nF m)) = image_mset group (mset (aggregateData D gF nF m))"
    by simp
  also have "\<dots> = mset (map fst (group_rows gF nF D))"
    unfolding aggregateData_conv mset_sort_by
    by (simp add: multiset.map_comp comp_def case_prod_beta)
  finally show ?thesis .
qed

lemma aggregateData_distinct: "distinct (map group (aggregateData D gF nF m))"
  using aggregateData_groups [of D gF nF m] group_rows_distinct [of gF nF D]
  by (metis mset_eq_imp_distinct_iff)

lemma aggregateData_group_set:
  "group ` set (aggregateData D gF nF m) =
   (\<lambda>row. group_key (get_prop row gF)) ` {row \<in> set D. \<not> row_skipped gF nF row}"
proof -
  have "group ` set (aggregateData D gF nF m) = set (map group (aggregateData D gF nF m))" by simp
  also have "\<dots> = set (map fst (group_rows gF nF D))"
    using aggregateData_groups [of D gF nF m] by (metis set_mset_mset)
  also have "\<dots> = fst ` set (valid_pairs gF nF D)" by (simp add: group_rows_keys)
  also have "\<dots> = (\<lambda>row. group_key (get_prop row gF)) ` {row \<in> set D. \<not> row_skipped gF nF row}"
    by (auto simp: valid_pairs_def image_iff)
  finally show ?thesis .
qed

lemma aggregateData_entry:
  assumes "e \<in> set (aggregateData D gF nF m)"
  shows "agg_value e = aggregate_values m
           (map (\<lambda>row. to_number (get_prop row nF))
              (filter (\<lambda>row. \<not> row_skipped gF nF row \<and> group_key (get_prop row gF) = group e) D))"
proof -
  from assms obtain k vs where kv: "(k, vs) \<in> set (group_rows gF nF D)"
    and e: "e = \<lparr>group = k, agg_value = aggregate_values m vs\<rparr>"
    by (auto simp: aggregateData_conv)
  from group_rows_entry(1) [OF kv] show ?thesis
    by (simp add: e valid_pairs_values)
qed

lemma aggregateData_filter_skipped:
  "aggregateData (filter (\<lambda>row. \<not> row_skipped gF nF row) D) gF nF m = aggregateData D gF nF m"
proof -
  have "valid_pairs gF nF (filter (\<lambda>row. \<not> row_skipped gF nF row) D) = valid_pairs gF nF D"
    by (simp add: valid_pairs_def)
  then show ?thesis by (simp add: aggregateData_conv group_rows_conv)
qed

lemma row_skipped_iff:
  "row_skipped gF nF row \<longleftrightarrow>
     get_prop row gF = JNull \<or> get_prop row gF = JUndef \<or>
     (case get_prop row nF of JNum n \<Rightarrow> n = NaN | _ \<Rightarrow> True)"
  by (auto simp: row_skipped_def Let_def is_nullish_def js_typeof_def js_isNaN_def split: jsval.splits)


lemma string_less_conv: "string_less s t \<longleftrightarrow> map of_char s < (map of_char t :: nat list)"
  by (induction s t rule: string_less.induct) auto

lemma localeCompare_pos: "num_pos (localeCompare s t) \<longleftrightarrow> string_less t s"
  by (induction s t rule: localeCompare.induct) (auto simp: num_pos_def)

lemma string_le_trans:
  "\<not> string_less b a \<Longrightarrow> \<not> string_less c b \<Longrightarrow> \<not> string_less c a"
  unfolding string_less_conv not_less by (rule order_trans)

lemma string_less_asym: "string_less a b \<Longrightarrow> \<not> string_less b a"
  unfolding string_less_conv by simp

lemma group_key_not_number:
  "js_typeof g \<noteq> ''number'' \<Longrightarrow> \<exists>s. group_key g = JStr s"
  by (cases g) (simp_all add: group_key_def js_typeof_def)

lemma ascending_groups_numbers [simp]: "ascending_groups (JNum m) (JNum n) = num_le m n"
  by (simp add: ascending_groups_def)

lemma ascending_groups_strings [simp]: "ascending_groups (JStr s) (JStr t) = (\<not> string_less t s)"
  by (simp add: ascending_groups_def to_string_def)

lemma aggregate_compare_numbers:
  "group a = JNum m \<Longrightarrow> group b = JNum n \<Longrightarrow> aggregate_compare a b = num_sub m n"
  by (simp add: aggregate_compare_def)

lemma aggregate_compare_strings:
  "group a = JStr s \<Longrightarrow> group b = JStr t \<Longrightarrow> aggregate_compare a b = localeCompare s t"
  by (simp add: aggregate_compare_def to_string_def)

lemma sorted_aggregate_numbers:
  assumes "\<forall>e \<in> set es. \<exists>n. group e = JNum n \<and> n \<noteq> NaN"
  shows "sorted_wrt (\<lambda>a b. ascending_groups (group a) (group b)) (sort_by aggregate_compare es)"
proof (rule sorted_wrt_sort_by [where A = "{e. \<exists>n. group e = JNum n \<and> n \<noteq> NaN}"])
  show "set es \<subseteq> {e. \<exists>n. group e = JNum n \<and> n \<noteq> NaN}" using assms by auto
next
  fix a b c :: agg_entry
  assume "a \<in> {e. \<exists>n. group e = JNum n \<and> n \<noteq> NaN}" "b \<in> {e. \<exists>n. group e = JNum n \<and> n \<noteq> NaN}"
    "c \<in> {e. \<exists>n. group e = JNum n \<and> n \<noteq> NaN}"
  then obtain l m n where "group a = JNum l" "group b = JNum m" "group c = JNum n" by auto
  then show "ascending_groups (group a) (group b) \<Longrightarrow> ascending_groups (group b) (group c)
      \<Longrightarrow> ascending_groups (group a) (group c)"
    by (simp add: num_le_trans [of l m n])
next
  fix a b :: agg_entry
  assume "a \<in> {e. \<exists>n. group e = JNum n \<and> n \<noteq> NaN}" "b \<in> {e. \<exists>n. group e = JNum n \<and> n \<noteq> NaN}"
  then obtain m n where g: "group a = JNum m" "group b = JNum n" and n: "m \<noteq> NaN" "n \<noteq> NaN"
    by auto
  show "\<not> num_pos (aggregate_compare a b) \<Longrightarrow> ascending_groups (group a) (group b)"
    using n by (simp add: g aggregate_compare_numbers [OF g] num_sub_not_pos_le)
  show "num_pos (aggregate_compare a b) \<Longrightarrow> ascending_groups (group b) (group a)"
    by (simp add: g aggregate_compare_numbers [OF g] num_sub_pos_ge)
qed

lemma sorted_aggregate_strings:
  assumes "\<forall>e \<in> set es. \<exists>s. group e = JStr s"
  shows "sorted_wrt (\<lambda>a b. ascending_groups (group a) (group b)) (sort_by aggregate_compare es)"
proof (rule sorted_wrt_sort_by [where A = "{e. \<exists>s. group e = JStr s}"])
  show "set es \<subseteq> {e. \<exists>s. group e = JStr s}" using assms by auto
next
  fix a b c :: agg_entry
  assume "a \<in> {e. \<exists>s. group e = JStr s}" "b \<in> {e. \<exists>s. group e = JStr s}"
    "c \<in> {e. \<exists>s. group e = JStr s}"
  then obtain s t u where "group a = JStr s" "group b = JStr t" "group c = JStr u" by auto
  then show "ascending_groups (group a) (group b) \<Longrightarrow> ascending_groups (group b) (group c)
      \<Longrightarrow> ascending_groups (group a) (group c)"
    by (simp add: string_le_trans [of t s u])
next
  fix a b :: agg_entry
  assume "a \<in> {e. \<exists>s. group e = JStr s}" "b \<in> {e. \<exists>s. group e = JStr s}"
  then obtain s t where g: "group a = JStr s" "group b = JStr t" by auto
  show "\<not> num_pos (aggregate_compare a b) \<Longrightarrow> ascending_groups (group a) (group b)"
    by (simp add: g aggregate_compare_strings [OF g] localeCompare_pos)
  show "num_pos (aggregate_compare a b) \<Longrightarrow> ascending_groups (group b) (group a)"
    by (simp add: g aggregate_compare_strings [OF g] localeCompare_pos string_less_asym)
qed

lemma foldl_num_add_Fin: "foldl num_add (Fin a) (map Fin rs) = Fin (a + sum_list rs)"
  by (induction rs arbitrary: a) (simp_all add: add.assoc)

lemma average_Fin: "average (map Fin rs) = (if rs = [] then NaN else Fin (sum_list rs / real (length rs)))"
  by (simp add: average_def foldl_num_add_Fin)

lemmas js_eval =
  get_prop_def is_nullish_def js_typeof_def js_isNaN_def to_string_def js_minus_def js_plus_def
  num_sub_def num_pos_def num_eq_def num_le_def sort_by_def

lemmas aggregate_eval =
  aggregateData_def group_rows_def row_skipped_def group_key_def groups_push_def
  aggregate_values_def average_def aggregate_compare_def

text \<open>
  Claim C3, amended. \<^verbatim>\<open>aggregateData\<close> skips exactly the records whose grouping value
  is \<^verbatim>\<open>null\<close> or absent, or whose numeric value is not of type number or is NaN; an
  infinite value is a number and is not skipped. Skipped records contribute nothing:
  dropping them from the dataset leaves the result the same, the groups of the result are
  the group keys of the records that are not skipped, and the value of every group is
  computed from the values of exactly the records of that group that are not skipped, in
  dataset order.
\<close>

theorem aggregateData_skips:
  "(row_skipped groupFeature numericFeature row \<longleftrightarrow>
      get_prop row groupFeature = JNull \<or> get_prop row groupFeature = JUndef \<or>
      (case get_prop row numericFeature of JNum n \<Rightarrow> n = NaN | _ \<Rightarrow> True)) \<and>
   aggregateData (filter (\<lambda>r. \<not> row_skipped groupFeature numericFeature r) D)
       groupFeature numericFeature meth
     = aggregateData D groupFeature numericFeature meth \<and>
   group ` set (aggregateData D groupFeature numericFeature meth)
     = (\<lambda>r. group_key (get_prop r groupFeature)) `
         {r \<in> set D. \<not> row_skipped groupFeature numericFeature r} \<and>
   (\<forall>e \<in> set (aggregateData D groupFeature numericFeature meth).
      agg_value e = aggregate_values meth
        (map (\<lambda>r. to_number (get_prop r numericFeature))
           (filter (\<lambda>r. \<not> row_skipped groupFeature numericFeature r \<and>
                         group_key (get_prop r groupFeature) = group e) D)))"
  using row_skipped_iff [of groupFeature numericFeature row]
    aggregateData_filter_skipped [of groupFeature numericFeature D meth]
    aggregateData_group_set [of D groupFeature numericFeature meth]
    aggregateData_entry [of _ D groupFeature numericFeature meth]
  by blast

theorem aggregateData_skips_witness:
  "set (aggregateData
     [[(''g'', JStr ''a''), (''v'', JNum (Fin 1))], [(''g'', JStr ''b''), (''v'', JNum NaN)],
      [(''g'', JNull), (''v'', JNum (Fin 5))], [(''g'', JStr ''a''), (''v'', JStr ''7'')],
      [(''g'', JStr ''a''), (''v'', JNum (Fin 2))]] ''g'' ''v'' ''sum'')
     = {\<lparr>group = JStr ''a'', agg_value = Fin 3\<rparr>} \<and>
   agg_value \<lparr>group = JStr ''a'', agg_value = Fin 3\<rparr> = aggregate_values ''sum'' [Fin 1, Fin 2]"
proof -
  let ?D = "[[(''g'', JStr ''a''), (''v'', JNum (Fin 1))], [(''g'', JStr ''b''), (''v'', JNum NaN)],
      [(''g'', JNull), (''v'', JNum (Fin 5))], [(''g'', JStr ''a''), (''v'', JStr ''7'')],
      [(''g'', JStr ''a''), (''v'', JNum (Fin 2))]]"
  have e: "aggregateData ?D ''g'' ''v'' ''sum'' = [\<lparr>group = JStr ''a'', agg_value = Fin 3\<rparr>]"
    by (simp add: aggregate_eval js_eval)
  show ?thesis
    using e aggregateData_skips [of "''g''" "''v''" "[]" ?D "''sum''"]
    by (simp add: row_skipped_def group_key_def js_eval)
qed

text \<open>The claim as stated has records with an infinite value skipped; the one record here
  is not.\<close>

theorem aggregateData_infinity_counterexample:
  "aggregateData [[(''g'', JStr ''a''), (''v'', JNum PInf)]] ''g'' ''v'' ''sum''
     = [\<lparr>group = JStr ''a'', agg_value = PInf\<rparr>]"
  by (simp add: aggregate_eval js_eval)




subsection \<open>Outlier removal\<close>

lemma json_value_idem: "json_value v = Some w \<Longrightarrow> json_value w = Some w"
  by (cases v rule: json_value.cases) auto

lemma json_object_idem [simp]: "json_object (json_object d) = json_object d"
proof (induction d)
  case Nil
  then show ?case by (simp add: json_object_def)
next
  case (Cons p d)
  obtain k v where p: "p = (k, v)" by (cases p)
  show ?case
  proof (cases "json_value v")
    case None
    with Cons p show ?thesis by (simp add: json_object_def)
  next
    case (Some w)
    with Cons p json_value_idem [OF Some] show ?thesis by (simp add: json_object_def)
  qed
qed

lemma json_clone_idem [simp]: "json_clone (json_clone D) = json_clone D"
  by (simp add: json_clone_def)

lemma json_clone_fixed:
  "set xs \<subseteq> set (json_clone D) \<Longrightarrow> json_clone xs = xs"
proof -
  assume sub: "set xs \<subseteq> set (json_clone D)"
  have "json_object x = x" if "x \<in> set xs" for x
  proof -
    from that sub obtain d where "x = json_object d" by (auto simp: json_clone_def)
    then show ?thesis by simp
  qed
  then show ?thesis by (simp add: json_clone_def map_idI)
qed

lemma outlier_loop_conv:
  "n \<le> length fd \<Longrightarrow>
   outlier_loop feature lo hi n fd = filter (keeps feature lo hi) (take n fd) @ drop n fd"
proof (induction n arbitrary: fd)
  case 0
  then show ?case by simp
next
  case (Suc i)
  then have i: "i < length fd" by simp
  show ?case
  proof (cases "keeps feature lo hi (fd ! i)")
    case True
    with Suc.IH [of fd] i show ?thesis
      by (simp add: keeps_def take_Suc_conv_app_nth Cons_nth_drop_Suc)
  next
    case False
    have "i \<le> length (splice1 i fd)" using i by (simp add: splice1_def)
    from Suc.IH [OF this] False i show ?thesis
      by (simp add: keeps_def take_Suc_conv_app_nth splice1_def)
  qed
qed

lemma remove_feature_outliers_conv:
  "\<exists>lo hi. remove_feature_outliers threshold fd feature = filter (keeps feature lo hi) fd"
  by (simp add: remove_feature_outliers_def Let_def outlier_loop_conv) blast

lemma remove_feature_outliers_subseq: "subseq (remove_feature_outliers threshold fd feature) fd"
  using remove_feature_outliers_conv [of threshold fd feature] by auto

lemma foldl_remove_subseq: "subseq (foldl (remove_feature_outliers threshold) X N) X"
proof (induction N arbitrary: X)
  case Nil
  then show ?case by simp
next
  case (Cons f N)
  from Cons [of "remove_feature_outliers threshold X f"] remove_feature_outliers_subseq [of threshold X f]
  show ?case by (simp add: subseq_order.trans)
qed

lemma removeOutliers_subseq: "subseq (removeOutliers D N t) (json_clone D)"
  by (simp add: removeOutliers_def foldl_remove_subseq)

lemma removeOutliers_fixed: "json_clone (removeOutliers D N t) = removeOutliers D N t"
proof (rule json_clone_fixed)
  show "set (removeOutliers D N t) \<subseteq> set (json_clone D)"
    using removeOutliers_subseq [of D N t] by (auto dest: list_emb_set)
qed

text \<open>
  Claim C1, amended. \<^verbatim>\<open>removeOutliers\<close> returns a subsequence of the (copied) records of
  its input, in their order; applied to its own output with the same columns and
  threshold it returns a subsequence of that output, which can be shorter, since the
  quartiles are taken again from the records that are left; when the first application
  removed no record, the second removes none either.
\<close>

theorem removeOutliers_reapplied:
  "subseq (removeOutliers D N t) (json_clone D) \<and>
   subseq (removeOutliers (removeOutliers D N t) N t) (removeOutliers D N t) \<and>
   (length (removeOutliers D N t) = length D \<longrightarrow>
      removeOutliers (removeOutliers D N t) N t = removeOutliers D N t)"
proof (intro conjI impI)
  show "subseq (removeOutliers D N t) (json_clone D)" by (rule removeOutliers_subseq)
  have "subseq (removeOutliers (removeOutliers D N t) N t) (json_clone (removeOutliers D N t))"
    by (rule removeOutliers_subseq)
  then show "subseq (removeOutliers (removeOutliers D N t) N t) (removeOutliers D N t)"
    by (simp add: removeOutliers_fixed)
  assume "length (removeOutliers D N t) = length D"
  then have "length (removeOutliers D N t) = length (json_clone D)" by (simp add: json_clone_def)
  with removeOutliers_subseq [of D N t] have "removeOutliers D N t = json_clone D"
    by (rule subseq_same_length)
  then show "removeOutliers (removeOutliers D N t) N t = removeOutliers D N t"
    by (simp add: removeOutliers_def)
qed

theorem removeOutliers_reapplied_witness:
  "length (removeOutliers [[(''x'', JNum (Fin 1))], [(''x'', JNum (Fin 2))], [(''x'', JNum (Fin 3))]]
             [''x''] (Fin (3 / 2)))
     = length [[(''x'', JNum (Fin 1))], [(''x'', JNum (Fin 2))], [(''x'', JNum (Fin 3))]] \<and>
   removeOutliers
       (removeOutliers [[(''x'', JNum (Fin 1))], [(''x'', JNum (Fin 2))], [(''x'', JNum (Fin 3))]]
          [''x''] (Fin (3 / 2)))
       [''x''] (Fin (3 / 2))
     = removeOutliers [[(''x'', JNum (Fin 1))], [(''x'', JNum (Fin 2))], [(''x'', JNum (Fin 3))]]
         [''x''] (Fin (3 / 2))"
proof -
  have h: "length (removeOutliers [[(''x'', JNum (Fin 1))], [(''x'', JNum (Fin 2))], [(''x'', JNum (Fin 3))]]
             [''x''] (Fin (3 / 2)))
     = length [[(''x'', JNum (Fin 1))], [(''x'', JNum (Fin 2))], [(''x'', JNum (Fin 3))]]"
    by code_simp
  show ?thesis
    using h removeOutliers_reapplied
      [of "[[(''x'', JNum (Fin 1))], [(''x'', JNum (Fin 2))], [(''x'', JNum (Fin 3))]]"
          "[''x'']" "Fin (3 / 2)"]
    by simp
qed

text \<open>The claim as stated fails. With threshold 1.5 and the values 0, 2, 3, 3, 3 in one
  column, the first application takes Q1 = 2 and Q3 = 3, keeps the values in
  \<open>[0.5, 4.5]\<close> and so removes 0; the second takes Q1 = Q3 = 3 from the four values
  left and removes 2.\<close>

theorem removeOutliers_idempotent_counterexample:
  "removeOutliers
       (removeOutliers
          [[(''x'', JNum (Fin 0))], [(''x'', JNum (Fin 2))], [(''x'', JNum (Fin 3))],
           [(''x'', JNum (Fin 3))], [(''x'', JNum (Fin 3))]] [''x''] (Fin (3 / 2)))
       [''x''] (Fin (3 / 2))
     = [[(''x'', JNum (Fin 3))], [(''x'', JNum (Fin 3))], [(''x'', JNum (Fin 3))]] \<and>
   removeOutliers
          [[(''x'', JNum (Fin 0))], [(''x'', JNum (Fin 2))], [(''x'', JNum (Fin 3))],
           [(''x'', JNum (Fin 3))], [(''x'', JNum (Fin 3))]] [''x''] (Fin (3 / 2))
     = [[(''x'', JNum (Fin 2))], [(''x'', JNum (Fin 3))], [(''x'', JNum (Fin 3))],
        [(''x'', JNum (Fin 3))]]"
  by code_simp

subsection \<open>Normalisation\<close>

lemma get_prop_set_prop: "get_prop (set_prop d f v) g = (if g = f then v else get_prop d g)"
  by (simp add: get_prop_def set_prop_def update_conv')

lemma column_normalize_feature:
  "column_values g (normalize_feature X f) = (if g = f then normalize_values (column_values f X) else column_values g X)"
  by (simp add: column_values_def normalize_feature_def normalize_values_def Let_def get_prop_set_prop comp_def)

lemma length_normalize_feature [simp]: "length (normalize_feature X f) = length X"
  by (simp add: normalize_feature_def Let_def)

lemma length_foldl_normalize [simp]: "length (foldl normalize_feature X N) = length X"
  by (induction N arbitrary: X) simp_all

lemma num_sub_Fin [simp]: "num_sub (Fin a) (Fin b) = Fin (a - b)"
  by (simp add: num_sub_def)

lemma num_min2_Fin [simp]: "num_min2 (Fin a) (Fin b) = Fin (min a b)"
  by (auto simp: num_min2_def min_def)

lemma num_max2_Fin [simp]: "num_max2 (Fin a) (Fin b) = Fin (max a b)"
  by (auto simp: num_max2_def max_def)

lemma foldr_num_min2_Fin:
  "foldr num_min2 (map Fin rs) PInf = (if rs = [] then PInf else Fin (Min (set rs)))"
proof (induction rs)
  case Nil
  then show ?case by simp
next
  case (Cons r rs)
  show ?case
  proof (cases "rs = []")
    case True
    then show ?thesis by (simp add: num_min2_def)
  next
    case False
    with Cons show ?thesis by simp
  qed
qed

lemma foldr_num_max2_Fin:
  "foldr num_max2 (map Fin rs) NInf = (if rs = [] then NInf else Fin (Max (set rs)))"
proof (induction rs)
  case Nil
  then show ?case by simp
next
  case (Cons r rs)
  show ?case
  proof (cases "rs = []")
    case True
    then show ?thesis by (simp add: num_max2_def)
  next
    case False
    with Cons show ?thesis by simp
  qed
qed

lemma Math_min_Fin:
  "map to_number vs = map Fin rs \<Longrightarrow> Math_min vs = (if rs = [] then PInf else Fin (Min (set rs)))"
  by (auto simp: Math_min_def Let_def foldr_num_min2_Fin list_ex_iff)

lemma Math_max_Fin:
  "map to_number vs = map Fin rs \<Longrightarrow> Math_max vs = (if rs = [] then NInf else Fin (Max (set rs)))"
  by (auto simp: Math_max_def Let_def foldr_num_max2_Fin list_ex_iff)

text \<open>A column of finite numbers: the normalised values, and normalising twice.\<close>

lemma normalize_values_Fin:
  assumes vs: "map to_number vs = map Fin rs"
  shows "normalize_values vs =
     (if rs = [] \<or> Min (set rs) = Max (set rs) then vs
      else map (\<lambda>r. JNum (Fin ((r - Min (set rs)) / (Max (set rs) - Min (set rs))))) rs)"
proof (cases "rs = []")
  case True
  with vs show ?thesis by (simp add: normalize_values_def Math_min_def Math_max_def num_eq_def)
next
  case False
  have "map (\<lambda>v. JNum (num_div (js_minus v (JNum (Fin a))) (Fin b))) vs
      = map (\<lambda>r. JNum (Fin ((r - a) / b))) rs" if "b \<noteq> 0" for a b
  proof -
    have "map (\<lambda>v. JNum (num_div (js_minus v (JNum (Fin a))) (Fin b))) vs
        = map (\<lambda>n. JNum (num_div (num_sub n (Fin a)) (Fin b))) (map to_number vs)"
      by (simp add: js_minus_def comp_def)
    also have "\<dots> = map (\<lambda>r. JNum (Fin ((r - a) / b))) rs"
      using that by (simp add: vs comp_def)
    finally show ?thesis .
  qed
  with False show ?thesis
    by (auto simp: normalize_values_def Let_def Math_min_Fin [OF vs] Math_max_Fin [OF vs]
          num_eq_def)
qed

lemma normalize_values_idem:
  assumes vs: "map to_number vs = map Fin rs"
  shows "normalize_values (normalize_values vs) = normalize_values vs"
proof (cases "rs = [] \<or> Min (set rs) = Max (set rs)")
  case True
  then show ?thesis by (simp add: normalize_values_Fin [OF vs])
next
  case False
  define lo hi where "lo = Min (set rs)" and "hi = Max (set rs)"
  define q where "q = (\<lambda>r. (r - lo) / (hi - lo))"
  from False have ne: "rs \<noteq> []" and "lo \<noteq> hi" by (simp_all add: lo_def hi_def)
  moreover have "lo \<le> hi" using ne by (simp add: lo_def hi_def)
  ultimately have lt: "lo < hi" by simp
  have ws: "normalize_values vs = map (\<lambda>r. JNum (Fin (q r))) rs"
    using False by (simp add: normalize_values_Fin [OF vs] q_def lo_def hi_def)
  have tn: "map to_number (normalize_values vs) = map Fin (map q rs)"
    by (simp add: ws comp_def)
  have "mono q" using lt by (auto simp: q_def mono_def divide_right_mono)
  have lo_in: "lo \<in> set rs" and hi_in: "hi \<in> set rs"
    using ne by (simp_all add: lo_def hi_def)
  have min0: "Min (q ` set rs) = 0"
  proof -
    have "Min (q ` set rs) = q (Min (set rs))"
      using \<open>mono q\<close> ne by (simp add: mono_Min_commute)
    then show ?thesis by (simp add: q_def lo_def)
  qed
  have max1: "Max (q ` set rs) = 1"
  proof -
    have "Max (q ` set rs) = q (Max (set rs))"
      using \<open>mono q\<close> ne by (simp add: mono_Max_commute)
    then show ?thesis using lt by (simp add: q_def hi_def)
  qed
  show ?thesis
    unfolding normalize_values_Fin [OF tn]
    using ne by (simp add: min0 max1 ws)
qed

lemma normalize_values_range:
  assumes vs: "map to_number vs = map Fin rs" and ne: "\<not> num_eq (Math_min vs) (Math_max vs)"
  shows "\<forall>v \<in> set (normalize_values vs). \<exists>r. v = JNum (Fin r) \<and> 0 \<le> r \<and> r \<le> 1"
proof (cases "rs = []")
  case True
  with vs show ?thesis by (simp add: normalize_values_def Let_def)
next
  case False
  with ne have neq: "Min (set rs) \<noteq> Max (set rs)"
    by (simp add: Math_min_Fin [OF vs] Math_max_Fin [OF vs] num_eq_def)
  have "Min (set rs) \<le> Max (set rs)" using False by simp
  with neq have lt: "Min (set rs) < Max (set rs)" by simp
  have "0 \<le> (r - Min (set rs)) / (Max (set rs) - Min (set rs)) \<and>
        (r - Min (set rs)) / (Max (set rs) - Min (set rs)) \<le> 1" if "r \<in> set rs" for r
    using that lt by (simp add: divide_le_eq)
  with False neq show ?thesis
    by (auto simp: normalize_values_Fin [OF vs])
qed

lemma column_foldl_normalize:
  assumes "map to_number (column_values f X) = map Fin rs"
  shows "column_values f (foldl normalize_feature X N) =
         (if f \<in> set N then normalize_values (column_values f X) else column_values f X)"
proof (induction N rule: rev_induct)
  case Nil
  then show ?case by simp
next
  case (snoc g N)
  show ?case
  proof (cases "g = f")
    case True
    have "column_values f (foldl normalize_feature X (N @ [g]))
        = normalize_values (column_values f (foldl normalize_feature X N))"
      by (simp add: True column_normalize_feature)
    also have "\<dots> = normalize_values (column_values f X)"
      by (simp add: snoc normalize_values_idem [OF assms])
    finally show ?thesis by (simp add: True)
  next
    case False
    then show ?thesis by (simp add: snoc column_normalize_feature)
  qed
qed

lemma map_of_json_object:
  "map_of d k = Some v \<Longrightarrow> json_value v = Some w \<Longrightarrow> map_of (json_object d) k = Some w"
proof (induction d)
  case Nil
  then show ?case by simp
next
  case (Cons p d)
  obtain k' v' where p: "p = (k', v')" by (cases p)
  show ?case
  proof (cases "k' = k")
    case True
    with Cons.prems p show ?thesis by (simp add: json_object_def)
  next
    case False
    with Cons p have "map_of (json_object d) k = Some w" by simp
    with False p show ?thesis by (cases "json_value v'") (simp_all add: json_object_def)
  qed
qed

lemma get_prop_json_object_number:
  "get_prop d k = JNum n \<Longrightarrow>
   get_prop (json_object d) k = (case n of Fin r \<Rightarrow> JNum (Fin r) | _ \<Rightarrow> JNull)"
proof -
  assume g: "get_prop d k = JNum n"
  then have m: "map_of d k = Some (JNum n)"
    by (auto simp: get_prop_def split: option.splits)
  have "json_value (JNum n) = Some (case n of Fin r \<Rightarrow> JNum (Fin r) | _ \<Rightarrow> JNull)"
    by (cases n) simp_all
  from map_of_json_object [OF m this] show ?thesis by (simp add: get_prop_def)
qed

lemma column_json_clone_numbers:
  assumes "\<forall>d \<in> set D. \<exists>n. get_prop d f = JNum n"
  shows "column_values f (json_clone D) =
         map (\<lambda>v. case v of JNum (Fin r) \<Rightarrow> JNum (Fin r) | _ \<Rightarrow> JNull) (column_values f D)"
  unfolding column_values_def json_clone_def map_map comp_def
proof (rule map_cong [OF refl])
  fix d assume "d \<in> set D"
  with assms obtain n where n: "get_prop d f = JNum n" by auto
  show "get_prop (json_object d) f =
        (case get_prop d f of JNum (Fin r) \<Rightarrow> JNum (Fin r) | _ \<Rightarrow> JNull)"
    by (cases n) (simp_all add: get_prop_json_object_number [OF n] n)
qed

lemma column_json_clone_finite:
  assumes "\<forall>d \<in> set D. \<exists>n. get_prop d f = JNum n"
  shows "\<exists>rs. map to_number (column_values f (json_clone D)) = map Fin rs"
proof -
  have "\<exists>r. to_number (case v of JNum (Fin r) \<Rightarrow> JNum (Fin r) | _ \<Rightarrow> JNull) = Fin r" for v
    by (cases v) (auto split: jsnum.splits)
  then obtain q where q: "\<And>v. to_number (case v of JNum (Fin r) \<Rightarrow> JNum (Fin r) | _ \<Rightarrow> JNull) = Fin (q v)"
    by metis
  have "map to_number (column_values f (json_clone D)) = map Fin (map q (column_values f D))"
    by (simp add: column_json_clone_numbers [OF assms] q comp_def)
  then show ?thesis ..
qed




end
